theory Spec2Isabelle
  imports Complex_Main "HOL-Library.Word" "HOL-Library.Multiset"
begin

unbundle bit_operations_syntax

section \<open>Media timing introspection: \<open>sticker_convert/utils/media/codec_info.py\<close>\<close>

text \<open>
  Conventions of the embedding.
  \<^item> A Python \<open>int\<close> is an \<open>int\<close>; a \<open>fractions.Fraction\<close> is a \<open>rat\<close>, whose
    \<open>quotient_of\<close> gives the numerator and the (positive) denominator in lowest terms,
    as \<open>Fraction.numerator\<close> and \<open>Fraction.denominator\<close> do.
  \<^item> Every \<open>raise\<close> of the source, and every exception of a Python builtin it calls,
    is an \<open>Inl\<close> value of the result type \<open>error + 'a\<close>.
\<close>

datatype error =
    IndexError | ZeroDivisionError | ValueError | TypeError
  | UnsupportedOperation | OSError | UnidentifiedImageError | InvalidDataError

subsection \<open>Rational duration algebra\<close>

text \<open>\<open>def lcm(a, b): return abs(a * b) // gcd(a, b)\<close>; \<open>//\<close> by zero raises.\<close>

definition lcm_py :: "int \<Rightarrow> int \<Rightarrow> error + int" where
  "lcm_py a b = (if gcd a b = 0 then Inl ZeroDivisionError else Inr (\<bar>a * b\<bar> div gcd a b))"

text \<open>\<open>Fraction(n, d)\<close>: the rational \<open>n / d\<close>, or \<open>ZeroDivisionError\<close> when \<open>d = 0\<close>.\<close>

definition Fraction :: "int \<Rightarrow> int \<Rightarrow> error + rat" where
  "Fraction n d = (if d = 0 then Inl ZeroDivisionError else Inr (Fract n d))"

definition fraction_gcd :: "rat \<Rightarrow> rat \<Rightarrow> error + rat" where
  "fraction_gcd x y =
     (let a = fst (quotient_of x);
          b = snd (quotient_of x);
          c = fst (quotient_of y);
          d = snd (quotient_of y)
      in case lcm_py b d of
           Inl e \<Rightarrow> Inl e
         | Inr l \<Rightarrow> Fraction (gcd a c) l)"

text \<open>The \<open>for\<close> loop of \<open>fractions_gcd\<close>, the running value as accumulator.\<close>

fun fractions_gcd_loop :: "rat \<Rightarrow> rat list \<Rightarrow> error + rat" where
  "fractions_gcd_loop g [] = Inr g"
| "fractions_gcd_loop g (fraction # fractions_list) =
     (case fraction_gcd g fraction of
        Inl e \<Rightarrow> Inl e
      | Inr g' \<Rightarrow> fractions_gcd_loop g' fractions_list)"

text \<open>\<open>fractions_list.pop(0)\<close> raises \<open>IndexError\<close> on an empty argument list.\<close>

definition fractions_gcd :: "rat list \<Rightarrow> error + rat" where
  "fractions_gcd fractions =
     (case fractions of
        [] \<Rightarrow> Inl IndexError
      | g # fractions_list \<Rightarrow> fractions_gcd_loop g fractions_list)"

text \<open>
  The formula the specification gives for \<open>fraction_gcd\<close>, as a total function on
  rationals: the gcd of the numerators over the lcm of the denominators.
\<close>

definition rgcd :: "rat \<Rightarrow> rat \<Rightarrow> rat" where
  "rgcd x y = Fract (gcd (fst (quotient_of x)) (fst (quotient_of y)))
                    (lcm (snd (quotient_of x)) (snd (quotient_of y)))"

subsection \<open>Python numbers\<close>

text \<open>
  A duration sample is an \<open>int\<close> or a \<open>float\<close>, and the source tells them apart with
  \<open>isinstance\<close>. \<open>PFloat m e\<close> is the float that Python prints as the decimal
  \<open>m \<times> 10\<^sup>e\<close>; float arithmetic is exact on these decimals. Binary rounding of float
  operations, \<open>nan\<close> and \<open>inf\<close> are outside the model.
\<close>

datatype number = PInt int | PFloat int int

definition pow10 :: "int \<Rightarrow> rat" where
  "pow10 e = (if 0 \<le> e then of_int (10 ^ nat e) else 1 / of_int (10 ^ nat (- e)))"

fun num_val :: "number \<Rightarrow> rat" where
  "num_val (PInt i) = of_int i"
| "num_val (PFloat m e) = of_int m * pow10 e"

fun is_float :: "number \<Rightarrow> bool" where
  "is_float (PInt i) = False"
| "is_float (PFloat m e) = True"

text \<open>Truth value of a number: nonzero.\<close>

definition truthy :: "number \<Rightarrow> bool" where
  "truthy v = (num_val v \<noteq> 0)"

text \<open>\<open>i * x\<close> for a sample \<open>i\<close> and an \<open>int\<close> \<open>x\<close>: an int stays an int.\<close>

fun times_int :: "number \<Rightarrow> int \<Rightarrow> number" where
  "times_int (PInt i) x = PInt (i * x)"
| "times_int (PFloat m e) x = PFloat (m * x) e"

text \<open>
  \<open>rounding(value) = Decimal(value).quantize(0, ROUND_HALF_UP)\<close>, then \<open>int(...)\<close>:
  the nearest integer, a tie going away from zero.
\<close>

definition rounding :: "rat \<Rightarrow> int" where
  "rounding v = (if 0 \<le> v then \<lfloor>v + 1 / 2\<rfloor> else - \<lfloor>- v + 1 / 2\<rfloor>)"

text \<open>\<open>int(v)\<close> of a float: truncation towards zero.\<close>

definition int_trunc :: "rat \<Rightarrow> int" where
  "int_trunc v = (if 0 \<le> v then \<lfloor>v\<rfloor> else \<lceil>v\<rceil>)"

text \<open>\<open>a / b\<close> on numbers, raising on a zero divisor.\<close>

definition truediv :: "rat \<Rightarrow> rat \<Rightarrow> error + rat" where
  "truediv a b = (if b = 0 then Inl ZeroDivisionError else Inr (a / b))"

text \<open>\<open>math.gcd(*args)\<close>: non-negative, and \<open>0\<close> for no argument.\<close>

definition gcd_py :: "int list \<Rightarrow> int" where
  "gcd_py args = fold gcd args 0"

subsection \<open>Binary floating point\<close>

text \<open>
  Where the chunked raster strategy divides and multiplies Python floats, the result
  of each operation is the exact result rounded to the nearest IEEE 754 binary64
  number, a tie going to the even significand. \<open>round_double r\<close> is that number for a
  rational \<open>r\<close>: with \<open>l\<close> the integer such that \<open>2^l \<le> |r| < 2^(l+1)\<close> and
  \<open>e = l - 52\<close>, it is \<open>|r| / 2^e\<close> rounded to an integer, times \<open>2^e\<close>, with the sign
  of \<open>r\<close>. The exponent range is not bounded: overflow and subnormal numbers are
  outside the model.
\<close>

text \<open>\<open>n.bit_length()\<close> of a non-negative int.\<close>

function bit_length :: "int \<Rightarrow> int" where
  "bit_length n = (if n \<le> 0 then 0 else 1 + bit_length (n div 2))"
  by pat_completeness auto
termination
  by (relation "measure nat") auto

declare bit_length.simps [simp del]

definition pow2 :: "int \<Rightarrow> rat" where
  "pow2 k = (if 0 \<le> k then 2 ^ nat k else 1 / 2 ^ nat (- k))"

definition round_half_even :: "rat \<Rightarrow> int" where
  "round_half_even r =
     (let f = \<lfloor>r\<rfloor>; d = r - of_int f
      in if d < 1 / 2 then f
         else if 1 / 2 < d then f + 1
         else if even f then f else f + 1)"

definition round_double :: "rat \<Rightarrow> rat" where
  "round_double r =
     (if r = 0 then 0
      else
        let a = \<bar>r\<bar>;
            l = (if 1 \<le> a then bit_length \<lfloor>a\<rfloor> - 1 else - bit_length (\<lceil>1 / a\<rceil> - 1));
            e = l - 52
        in sgn r * of_int (round_half_even (a / pow2 e)) * pow2 e)"

text \<open>
  \<open>a / b\<close> on two ints, or with a float operand: the quotient rounded to a float,
  \<open>ZeroDivisionError\<close> on a zero divisor. \<open>a * b\<close> with a float operand: the product
  rounded to a float.
\<close>

definition float_truediv :: "rat \<Rightarrow> rat \<Rightarrow> error + rat" where
  "float_truediv a b = (if b = 0 then Inl ZeroDivisionError else Inr (round_double (a / b)))"

definition float_mul :: "rat \<Rightarrow> rat \<Rightarrow> rat" where
  "float_mul a b = round_double (a * b)"

subsection \<open>\<open>str\<close> of a float\<close>

text \<open>
  \<open>str(value)\<close> of a float is its \<open>repr\<close>: the significant digits \<open>d1 \<dots> dn\<close> without
  trailing zeros and the position \<open>decpt\<close> of the decimal point, the value being
  \<open>0.d1 \<dots> dn \<times> 10 ^ decpt\<close>. CPython prints the exponent form when
  \<open>decpt \<le> -4\<close> or \<open>decpt > 16\<close> (\<open>1e-05\<close>, \<open>1e+16\<close>, \<open>1.5e-07\<close>), and otherwise the
  positional form with at least one digit after the point (\<open>12.345\<close>, \<open>5.0\<close>, \<open>0.0001\<close>).
\<close>

fun digits :: "nat \<Rightarrow> nat list" where
  "digits n = (if n < 10 then [n] else digits (n div 10) @ [n mod 10])"

declare digits.simps [simp del]

definition digit_char :: "nat \<Rightarrow> char" where
  "digit_char d = ''0123456789'' ! d"

definition strip_zeros :: "nat list \<Rightarrow> nat list" where
  "strip_zeros ds = rev (dropWhile (\<lambda>d. d = 0) (rev ds))"

definition exp_str :: "int \<Rightarrow> string" where
  "exp_str x =
     (let ds = map digit_char (digits (nat \<bar>x\<bar>))
      in (if x < 0 then ''-'' else ''+'') @ (if length ds < 2 then ''0'' @ ds else ds))"

definition float_str :: "int \<Rightarrow> int \<Rightarrow> string" where
  "float_str m e =
     (if m = 0 then ''0.0''
      else
        let all_ds = digits (nat \<bar>m\<bar>);
            decpt = int (length all_ds) + e;
            ds = map digit_char (strip_zeros all_ds);
            n = int (length ds);
            body =
              (if decpt \<le> - 4 \<or> 16 < decpt then
                 take 1 ds @ (if 1 < n then ''.'' @ drop 1 ds else []) @ ''e'' @ exp_str (decpt - 1)
               else if decpt \<le> 0 then
                 ''0.'' @ replicate (nat (- decpt)) CHR ''0'' @ ds
               else if decpt < n then
                 take (nat decpt) ds @ ''.'' @ drop (nat decpt) ds
               else
                 ds @ replicate (nat (decpt - n)) CHR ''0'' @ ''.0'')
        in (if m < 0 then ''-'' else []) @ body)"

fun str :: "number \<Rightarrow> string" where
  "str (PInt i) = (if i < 0 then ''-'' else []) @ map digit_char (digits (nat \<bar>i\<bar>))"
| "str (PFloat m e) = float_str m e"

subsection \<open>\<open>likely_int\<close> and \<open>durations_gcd\<close>\<close>

text \<open>\<open>s.split(c)\<close> for a one-character separator: the pieces between the separators.\<close>

fun split_on :: "char \<Rightarrow> string \<Rightarrow> string list" where
  "split_on c [] = [[]]"
| "split_on c (x # xs) =
     (if x = c then [] # split_on c xs
      else (case split_on c xs of
              [] \<Rightarrow> [[x]]
            | p # ps \<Rightarrow> (x # p) # ps))"

text \<open>\<open>s.ljust(n, c)\<close>: pad on the right up to length \<open>n\<close>.\<close>

definition ljust :: "nat \<Rightarrow> char \<Rightarrow> string \<Rightarrow> string" where
  "ljust n c s = s @ replicate (n - length s) c"

text \<open>
  \<open>get_five_dec_place(value) = str(value).split(".")[1][:5].ljust(5, "0")\<close>:
  the index \<open>[1]\<close> raises \<open>IndexError\<close> when the text has no point.
\<close>

definition get_five_dec_place :: "number \<Rightarrow> error + string" where
  "get_five_dec_place v =
     (case split_on CHR ''.'' (str v) of
        p0 # p1 # ps \<Rightarrow> Inr (ljust 5 CHR ''0'' (take 5 p1))
      | _ \<Rightarrow> Inl IndexError)"

fun likely_int :: "number \<Rightarrow> error + bool" where
  "likely_int (PInt i) = Inr True"
| "likely_int (PFloat m e) =
     (case get_five_dec_place (PFloat m e) of
        Inl err \<Rightarrow> Inl err
      | Inr s \<Rightarrow> Inr (s = ''99999'' \<or> s = ''00000''))"

text \<open>
  \<open>any(i for i in durations if isinstance(i, float))\<close>: the generator yields the floats
  themselves, and \<open>any\<close> tests their truth value.
\<close>

definition any_float :: "number list \<Rightarrow> bool" where
  "any_float durations = (\<exists>i \<in> set durations. is_float i \<and> truthy i)"

text \<open>
  \<open>all(i for i in durations if likely_int(i))\<close>: the generator yields the samples that
  pass \<open>likely_int\<close>, and \<open>all\<close> tests the truth value of what is yielded, stopping at
  the first false one. A sample that fails \<open>likely_int\<close> is skipped.
\<close>

fun all_of_likely :: "number list \<Rightarrow> error + bool" where
  "all_of_likely [] = Inr True"
| "all_of_likely (i # durations) =
     (case likely_int i of
        Inl err \<Rightarrow> Inl err
      | Inr b \<Rightarrow> if b \<and> \<not> truthy i then Inr False else all_of_likely durations)"

text \<open>\<open>all(likely_int(i * x) for i in durations)\<close>, stopping at the first \<open>False\<close>.\<close>

fun all_likely_times :: "int \<Rightarrow> number list \<Rightarrow> error + bool" where
  "all_likely_times x [] = Inr True"
| "all_likely_times x (i # durations) =
     (case likely_int (times_int i x) of
        Inl err \<Rightarrow> Inl err
      | Inr b \<Rightarrow> if b then all_likely_times x durations else Inr False)"

text \<open>\<open>min(durations)\<close>: the first of the smallest samples.\<close>

fun min_number :: "number \<Rightarrow> number list \<Rightarrow> number" where
  "min_number m [] = m"
| "min_number m (i # durations) = min_number (if num_val i < num_val m then i else m) durations"

text \<open>The result of \<open>durations_gcd\<close>: a \<open>Fraction\<close>, or one of the samples.\<close>

datatype tick = TFraction rat | TNumber number

fun tick_val :: "tick \<Rightarrow> rat" where
  "tick_val (TFraction r) = r"
| "tick_val (TNumber v) = num_val v"

text \<open>
  The \<open>for x in (3, 6, 7, 9, 11, 13)\<close> loop with its \<open>else\<close> clause; \<open>min\<close> of no
  argument raises \<open>ValueError\<close>.
\<close>

fun probe_denominators :: "int list \<Rightarrow> number list \<Rightarrow> error + tick" where
  "probe_denominators [] durations =
     (case durations of
        [] \<Rightarrow> Inl ValueError
      | i # rest \<Rightarrow> Inr (TNumber (min_number i rest)))"
| "probe_denominators (x # xs) durations =
     (case all_likely_times x durations of
        Inl err \<Rightarrow> Inl err
      | Inr True \<Rightarrow>
          (case Fraction (gcd_py (map (\<lambda>i. rounding (num_val (times_int i x))) durations)) x of
             Inl err \<Rightarrow> Inl err
           | Inr r \<Rightarrow> Inr (TFraction r))
      | Inr False \<Rightarrow> probe_denominators xs durations)"

text \<open>
  The arguments of \<open>math.gcd(*durations)\<close>: it takes integers, and raises
  \<open>TypeError\<close> on a float.
\<close>

fun ints_of :: "number list \<Rightarrow> error + int list" where
  "ints_of [] = Inr []"
| "ints_of (PInt i # durations) =
     (case ints_of durations of
        Inl err \<Rightarrow> Inl err
      | Inr args \<Rightarrow> Inr (i # args))"
| "ints_of (PFloat m e # durations) = Inl TypeError"

text \<open>
  \<open>durations_gcd\<close>. The last branch is reached when no sample is a nonzero float.
\<close>

definition durations_gcd :: "number list \<Rightarrow> error + tick" where
  "durations_gcd durations =
     (if any_float durations then
        (case all_of_likely durations of
           Inl err \<Rightarrow> Inl err
         | Inr True \<Rightarrow>
             (case Fraction (gcd_py (map (\<lambda>i. rounding (num_val i)) durations)) 1 of
                Inl err \<Rightarrow> Inl err
              | Inr r \<Rightarrow> Inr (TFraction r))
         | Inr False \<Rightarrow> probe_denominators [3, 6, 7, 9, 11, 13] durations)
      else
        (case ints_of durations of
           Inl err \<Rightarrow> Inl err
         | Inr args \<Rightarrow>
             (case Fraction (gcd_py args) 1 of
                Inl err \<Rightarrow> Inl err
              | Inr r \<Rightarrow> Inr (TFraction r))))"

subsection \<open>The timing record\<close>

text \<open>
  The triple \<open>(fps, frames, duration)\<close> the strategies return. \<open>fps\<close> and \<open>duration\<close>
  are Python floats or ints, given by their value as a rational. The chunked raster
  strategy rounds each float operation (\<open>round_double\<close>); in the other strategies
  the arithmetic is exact, and a value of \<open>fps\<close> is the exact value of the expression
  that the source evaluates in floating point.
\<close>

type_synonym timing = "rat \<times> int \<times> rat"

subsection \<open>Chunked raster strategy: \<open>_get_file_fps_frames_duration_webp\<close>\<close>

type_synonym byte = "8 word"

text \<open>\<open>b"ANMF"\<close>\<close>

definition ANMF :: "byte list" where
  "ANMF = [0x41, 0x4E, 0x4D, 0x46]"

text \<open>
  \<open>mm.find(sub)\<close> searches from the current position of the map: \<open>find_sub sub rest\<close>
  is the lowest index of \<open>sub\<close> in the bytes \<open>rest\<close> from that position on, \<open>None\<close>
  for Python's \<open>-1\<close>.
\<close>

fun find_sub :: "byte list \<Rightarrow> byte list \<Rightarrow> nat option" where
  "find_sub sub [] = (if sub = [] then Some 0 else None)"
| "find_sub sub (x # xs) =
     (if take (length sub) (x # xs) = sub then Some 0
      else map_option Suc (find_sub sub xs))"

text \<open>\<open>int.from_bytes(bs, "little")\<close>\<close>

fun from_bytes_little :: "byte list \<Rightarrow> int" where
  "from_bytes_little [] = 0"
| "from_bytes_little (b # bs) = uint b + 256 * from_bytes_little bs"

text \<open>
  The duration field, from the bytes \<open>mm.read(4)\<close> returned (at most four, at least one):
  \<^verbatim>\<open>
  frame_duration_bytes = frame_duration_32[:-1] + bytes(
      int(frame_duration_32[-1]) & 0b11111100
  )
  frame_duration = int.from_bytes(frame_duration_bytes, "little")
  \<close>
  \<open>bytes(n)\<close> of an int \<open>n\<close> is a string of \<open>n\<close> zero bytes.
\<close>

definition decode_frame_duration :: "byte list \<Rightarrow> int" where
  "decode_frame_duration frame_duration_32 =
     (let frame_duration_bytes =
            butlast frame_duration_32
            @ replicate (unat (last frame_duration_32 AND 0b11111100)) (0 :: byte)
      in from_bytes_little frame_duration_bytes)"

text \<open>The three variables the scan updates: \<open>(total_duration, frames, durations)\<close>.\<close>

type_synonym scan_state = "int \<times> int \<times> int list"

definition scan_init :: scan_state where
  "scan_init = (0, 0, [])"

fun scan_step :: "int \<Rightarrow> scan_state \<Rightarrow> scan_state" where
  "scan_step frame_duration (total_duration, frames, durations) =
     (total_duration + frame_duration,
      frames + 1,
      (if frame_duration \<notin> set durations \<and> frame_duration \<noteq> 0
       then durations @ [frame_duration] else durations))"

text \<open>
  The \<open>while True\<close> loop over the mapped file. \<open>rest\<close> is the part of the map from the
  current position on. \<open>mm.seek\<close> raises \<open>ValueError\<close> beyond the end of the map;
  \<open>mm.read(4)\<close> returns the bytes that are left, at most four, and moves the position
  behind them; \<open>frame_duration_32[-1]\<close> raises \<open>IndexError\<close> when none is left.
\<close>

function webp_scan :: "byte list \<Rightarrow> scan_state \<Rightarrow> error + scan_state" where
  "webp_scan rest st =
     (case find_sub ANMF rest of
        None \<Rightarrow> Inr st
      | Some anmf_pos \<Rightarrow>
          if length rest < anmf_pos + 20 then Inl ValueError
          else if take 4 (drop (anmf_pos + 20) rest) = [] then Inl IndexError
          else webp_scan (drop (anmf_pos + 20 + length (take 4 (drop (anmf_pos + 20) rest))) rest)
                 (scan_step (decode_frame_duration (take 4 (drop (anmf_pos + 20) rest))) st))"
  by pat_completeness auto
termination
  by (relation "measure (\<lambda>(rest, st). length rest)") auto

declare webp_scan.simps [simp del]

text \<open>
  The duration fields of the frame chunks in file order, undecoded: for each occurrence
  of the marker that the scan visits, the bytes \<open>mm.read(4)\<close> returns at offset 20.
  The properties below read these fields the way the specification does, with
  \<open>masked_duration_spec\<close>.
\<close>

function anmf_fields :: "byte list \<Rightarrow> byte list list" where
  "anmf_fields rest =
     (case find_sub ANMF rest of
        None \<Rightarrow> []
      | Some anmf_pos \<Rightarrow>
          if length rest < anmf_pos + 20 \<or> take 4 (drop (anmf_pos + 20) rest) = [] then []
          else take 4 (drop (anmf_pos + 20) rest)
               # anmf_fields
                   (drop (anmf_pos + 20 + length (take 4 (drop (anmf_pos + 20) rest))) rest))"
  by pat_completeness auto
termination
  by (relation "measure length") auto

declare anmf_fields.simps [simp del]

text \<open>
  The reading of the duration field the specification describes: the four bytes as a
  little-endian integer, the fourth byte masked with \<open>0b11111100\<close>.
\<close>

definition masked_duration_spec :: "byte list \<Rightarrow> int" where
  "masked_duration_spec frame_duration_32 =
     from_bytes_little (butlast frame_duration_32 @ [last frame_duration_32 AND 0b11111100])"

text \<open>
  A file argument is a \<open>Path\<close> or a \<open>bytes\<close> buffer. For a path, \<open>path_suffix\<close> is
  \<open>Path(file).suffix.lower()\<close>, and \<open>content\<close> the bytes of the file, \<open>None\<close> when it
  cannot be opened.
\<close>

datatype source = Path (path_suffix: string) (path_content: "byte list option") | Bytes "byte list"

text \<open>
  \<open>_open_f\<close> and \<open>mmap.mmap(f.fileno(), 0)\<close>: \<open>open\<close> raises \<open>OSError\<close> on a file it
  cannot open, a \<open>BytesIO\<close> has no \<open>fileno\<close>, and an empty file cannot be mapped.
\<close>

fun open_mmap :: "source \<Rightarrow> error + byte list" where
  "open_mmap (Path sfx None) = Inl OSError"
| "open_mmap (Path sfx (Some bs)) = (if bs = [] then Inl ValueError else Inr bs)"
| "open_mmap (Bytes bs) = Inl UnsupportedOperation"

text \<open>
  The part of the function after the scan. \<open>frames / total_duration * 1000\<close> divides
  two ints and multiplies the float by an int: two float operations. In the other
  branch the durations are ints, so \<open>duration_gcd\<close> is a \<open>Fraction\<close>, and
  \<open>total_duration / duration_gcd\<close> and \<open>frames_apparent / total_duration * 1000\<close> are
  exact \<open>Fraction\<close> arithmetic; \<open>float(...)\<close> rounds the exact result once.
\<close>

fun webp_result :: "scan_state \<Rightarrow> error + timing" where
  "webp_result (total_duration, frames, durations) =
     (if frames \<le> 1 then Inr (0, 1, 0)
      else if length durations = 1 then
        (case float_truediv (of_int frames) (of_int total_duration) of
           Inl err \<Rightarrow> Inl err
         | Inr q \<Rightarrow> Inr (float_mul q 1000, frames, of_int total_duration))
      else
        (case durations_gcd (map PInt durations) of
           Inl err \<Rightarrow> Inl err
         | Inr duration_gcd \<Rightarrow>
             (case truediv (of_int total_duration) (tick_val duration_gcd) of
                Inl err \<Rightarrow> Inl err
              | Inr frames_apparent \<Rightarrow>
                  (case truediv frames_apparent (of_int total_duration) of
                     Inl err \<Rightarrow> Inl err
                   | Inr q \<Rightarrow> Inr (round_double (q * 1000), frames, of_int total_duration)))))"

definition get_file_fps_frames_duration_webp :: "source \<Rightarrow> error + timing" where
  "get_file_fps_frames_duration_webp file =
     (case open_mmap file of
        Inl err \<Rightarrow> Inl err
      | Inr mm \<Rightarrow>
          (case webp_scan mm scan_init of
             Inl err \<Rightarrow> Inl err
           | Inr st \<Rightarrow> webp_result st))"

subsection \<open>What the decoding libraries report\<close>

text \<open>
  The three decoding libraries are outside the repository. A file is modelled together
  with what each of them reports for it; opening can fail in each.
  \<^item> \<open>rlottie_python\<close>: \<open>lottie_animation_get_framerate\<close>, \<open>_get_totalframe\<close>, \<open>_get_size\<close>.
  \<^item> Pillow: whether the image has the attribute \<open>n_frames\<close> and its value,
    \<open>im.info.get("duration")\<close> after \<open>im.seek(i)\<close>, \<open>im.format\<close>, \<open>is_animated\<close>, the size.
  \<^item> PyAV: \<open>container.duration\<close> (microseconds, possibly \<open>None\<close>), the video streams
    with their metadata, and the frames \<open>container.decode(stream)\<close> yields, each with
    its \<open>pts\<close> (possibly \<open>None\<close>) and \<open>time_base\<close> (a \<open>Fraction\<close>).
\<close>

record lottie_animation =
  framerate :: int
  totalframe :: int
  size :: "int \<times> int"

record pil_image =
  has_n_frames :: bool
  n_frames :: nat
  info_duration :: "nat \<Rightarrow> number option"
  format :: "string option"
  has_is_animated :: bool
  im_is_animated :: bool
  im_width :: int
  im_height :: int

record av_frame =
  pts :: "int option"
  time_base :: rat

record av_stream =
  stream_frames :: int
  stream_width :: int
  stream_height :: int
  codec_name :: string

record av_container =
  container_duration :: "int option"
  streams_video :: "av_stream list"
  decode :: "av_frame list"

record media =
  source :: source
  lottie :: "error + lottie_animation"
  image :: "error + pil_image"
  container :: "error + av_container"

subsection \<open>Generic animated raster strategy: \<open>_get_file_fps_frames_duration_pillow\<close>\<close>

text \<open>\<open>im.info.get("duration", 1000)\<close> for each \<open>i\<close> in \<open>range(im.n_frames)\<close>.\<close>

definition frame_durations :: "pil_image \<Rightarrow> number list" where
  "frame_durations im =
     map (\<lambda>i. case info_duration im i of None \<Rightarrow> PInt 1000 | Some d \<Rightarrow> d) [0..<n_frames im]"

text \<open>
  The body of the loop, on the pair of \<open>total_duration\<close> and \<open>durations\<close>. Membership in a Python list
  compares with \<open>==\<close>, that is by value.
\<close>

fun pillow_loop :: "number list \<Rightarrow> rat \<times> number list \<Rightarrow> rat \<times> number list" where
  "pillow_loop [] acc = acc"
| "pillow_loop (frame_duration # rest) (tot, ds) =
     pillow_loop rest
       (tot + num_val frame_duration,
        (if num_val frame_duration \<notin> num_val ` set ds \<and> num_val frame_duration \<noteq> 0
         then ds @ [frame_duration] else ds))"

definition get_file_fps_frames_duration_pillow :: "media \<Rightarrow> bool \<Rightarrow> error + timing" where
  "get_file_fps_frames_duration_pillow file frames_only =
     (case image file of
        Inl err \<Rightarrow> Inl err
      | Inr im \<Rightarrow>
          if has_n_frames im then
            (if frames_only then Inr (0, int (n_frames im), 1)
             else
               (case pillow_loop (frame_durations im) (0, []) of
                  (tot, ds) \<Rightarrow>
                    if n_frames im = 0 \<or> tot = 0 then Inr (0, int (n_frames im), tot)
                    else if length ds = 1 then
                      (case truediv (of_nat (n_frames im)) tot of
                         Inl err \<Rightarrow> Inl err
                       | Inr q \<Rightarrow> Inr (q * 1000, int (n_frames im), tot))
                    else
                      (case durations_gcd ds of
                         Inl err \<Rightarrow> Inl err
                       | Inr duration_gcd \<Rightarrow>
                           (case truediv tot (tick_val duration_gcd) of
                              Inl err \<Rightarrow> Inl err
                            | Inr frames_apparent \<Rightarrow>
                                (case truediv frames_apparent tot of
                                   Inl err \<Rightarrow> Inl err
                                 | Inr q \<Rightarrow> Inr (q * 1000, int (n_frames im), tot))))))
          else Inr (0, 1, 0))"

subsection \<open>Decode-fallback strategy: \<open>_get_file_frames_duration_av\<close>\<close>

text \<open>
  \<^verbatim>\<open>
  frame_count = 0
  last_frame = None
  for frame_count, frame in enumerate(container.decode(stream)):
      if frames_to_iterate is not None and frame_count == frames_to_iterate:
          break
      last_frame = frame
  \<close>
  \<open>i\<close> is the index \<open>enumerate\<close> gives to the next frame; the loop variable
  \<open>frame_count\<close> is assigned that index before the test.
\<close>

fun decode_loop ::
  "nat option \<Rightarrow> av_frame list \<Rightarrow> nat \<Rightarrow> nat \<times> av_frame option \<Rightarrow> nat \<times> av_frame option" where
  "decode_loop frames_to_iterate [] i (frame_count, last_frame) = (frame_count, last_frame)"
| "decode_loop frames_to_iterate (frame # rest) i (frame_count, last_frame) =
     (if frames_to_iterate = Some i then (i, last_frame)
      else decode_loop frames_to_iterate rest (Suc i) (i, Some frame))"

definition get_file_frames_duration_av ::
  "media \<Rightarrow> nat option \<Rightarrow> bool \<Rightarrow> error + (int \<times> int)" where
  "get_file_frames_duration_av file frames_to_iterate frames_only =
     (case container file of
        Inl err \<Rightarrow> Inl err
      | Inr c \<Rightarrow>
          (case streams_video c of
             [] \<Rightarrow> Inl IndexError
           | stream # other \<Rightarrow>
               let duration_metadata =
                     (case container_duration c of
                        None \<Rightarrow> 0
                      | Some d \<Rightarrow> if d \<noteq> 0 then rounding (of_int d / 1000) else 0)
               in if frames_only \<and> 1 < stream_frames stream
                  then Inr (stream_frames stream, duration_metadata)
                  else
                    (case decode_loop frames_to_iterate (decode c) 0 (0, None) of
                       (frame_count, None) \<Rightarrow> Inr (0, 0)
                     | (frame_count, Some last_frame) \<Rightarrow>
                         let time_base_ms = time_base last_frame * 1000
                         in if frame_count \<le> 1 \<or> duration_metadata \<noteq> 0
                            then Inr (int frame_count, duration_metadata)
                            else
                              (case pts last_frame of
                                 None \<Rightarrow> Inl TypeError
                               | Some p \<Rightarrow>
                                   let duration_n_minus_one = of_int p * time_base_ms;
                                       ms_per_frame = duration_n_minus_one / of_nat (frame_count - 1);
                                       duration = of_nat frame_count * ms_per_frame
                                   in Inr (int frame_count, rounding duration)))))"

subsection \<open>Vector animation strategy\<close>

definition get_file_fps_frames_tgs :: "media \<Rightarrow> error + (int \<times> int)" where
  "get_file_fps_frames_tgs file =
     (case lottie file of
        Inl err \<Rightarrow> Inl err
      | Inr anim \<Rightarrow> Inr (framerate anim, totalframe anim))"

definition get_file_frames_tgs :: "media \<Rightarrow> error + int" where
  "get_file_frames_tgs file =
     (case lottie file of
        Inl err \<Rightarrow> Inl err
      | Inr anim \<Rightarrow> Inr (totalframe anim))"

subsection \<open>The facade: \<open>CodecInfo\<close>\<close>

fun is_Path :: "source \<Rightarrow> bool" where
  "is_Path (Path sfx c) = True"
| "is_Path (Bytes bs) = False"

text \<open>\<open>get_file_ext(file) = Path(file).suffix.lower()\<close>\<close>

fun get_file_ext :: "source \<Rightarrow> string" where
  "get_file_ext (Path sfx c) = sfx"
| "get_file_ext (Bytes bs) = []"

text \<open>
  \<open>if not file_ext and isinstance(file, Path): file_ext = CodecInfo.get_file_ext(file)\<close>;
  \<open>not file_ext\<close> holds for \<open>None\<close> and for the empty string.
\<close>

definition resolve_ext :: "media \<Rightarrow> string option \<Rightarrow> string option" where
  "resolve_ext file file_ext =
     (if (file_ext = None \<or> file_ext = Some []) \<and> is_Path (source file)
      then Some (get_file_ext (source file)) else file_ext)"

definition get_file_fps_frames_duration :: "media \<Rightarrow> string option \<Rightarrow> error + timing" where
  "get_file_fps_frames_duration file file_ext0 =
     (let file_ext = resolve_ext file file_ext0
      in if file_ext = Some ''.tgs'' then
           (case get_file_fps_frames_tgs file of
              Inl err \<Rightarrow> Inl err
            | Inr (fps, frames) \<Rightarrow>
                if 0 < fps
                then Inr (of_int fps, frames,
                          of_int (int_trunc (of_int frames / of_int fps * 1000)))
                else Inr (of_int fps, frames, 0))
         else if file_ext = Some ''.webp'' then
           get_file_fps_frames_duration_webp (source file)
         else if file_ext \<in> {Some ''.gif'', Some ''.apng'', Some ''.png''} then
           get_file_fps_frames_duration_pillow file False
         else
           (case get_file_frames_duration_av file None False of
              Inl err \<Rightarrow> Inl err
            | Inr (frames, duration) \<Rightarrow>
                if 0 < duration
                then Inr (of_int frames / of_int duration * 1000, frames, of_int duration)
                else Inr (0, frames, of_int duration)))"

definition get_file_frames :: "media \<Rightarrow> string option \<Rightarrow> bool \<Rightarrow> error + int" where
  "get_file_frames file file_ext0 check_anim =
     (let file_ext = resolve_ext file file_ext0
      in if file_ext = Some ''.tgs'' then get_file_frames_tgs file
         else if file_ext \<in> {Some ''.gif'', Some ''.webp'', Some ''.png'', Some ''.apng''} then
           (case get_file_fps_frames_duration_pillow file True of
              Inl err \<Rightarrow> Inl err
            | Inr (fps, frames, duration) \<Rightarrow> Inr frames)
         else
           (case get_file_frames_duration_av file (if check_anim then Some 2 else None) True of
              Inl err \<Rightarrow> Inl err
            | Inr (frames, duration) \<Rightarrow> Inr frames))"

definition is_anim :: "media \<Rightarrow> error + bool" where
  "is_anim file =
     (case get_file_frames file None True of
        Inl err \<Rightarrow> Inl err
      | Inr frames \<Rightarrow> Inr (1 < frames))"

text \<open>\<open>s.lower()\<close> on ASCII text, and \<open>file_ext.replace(".", "")\<close>.\<close>

definition lower :: "string \<Rightarrow> string" where
  "lower s =
     map (\<lambda>c. if (65 :: nat) \<le> of_char c \<and> of_char c \<le> (90 :: nat)
              then char_of (of_char c + (32 :: nat)) else c) s"

definition remove_dots :: "string \<Rightarrow> string" where
  "remove_dots s = filter (\<lambda>c. c \<noteq> CHR ''.'') s"

text \<open>
  \<open>get_file_codec\<close>. Only \<open>UnidentifiedImageError\<close> of \<open>Image.open\<close> and
  \<open>InvalidDataError\<close> of \<open>av.open\<close> are caught.
\<close>

definition get_file_codec :: "media \<Rightarrow> string option \<Rightarrow> error + string" where
  "get_file_codec file file_ext0 =
     (let file_ext = resolve_ext file file_ext0
      in if file_ext \<in> {Some ''.tgs'', Some ''.lottie'', Some ''.json''}
         then Inr (remove_dots (the file_ext))
         else
           (case (case image file of
                    Inl UnidentifiedImageError \<Rightarrow> Inr (None, False)
                  | Inl err \<Rightarrow> Inl err
                  | Inr im \<Rightarrow>
                      Inr (format im, if has_is_animated im then im_is_animated im else False)) of
              Inl err \<Rightarrow> Inl err
            | Inr (codec, animated) \<Rightarrow>
                if codec = Some ''PNG'' then Inr (if animated then ''apng'' else ''png'')
                else
                  (case codec of
                     Some name \<Rightarrow> Inr (lower name)
                   | None \<Rightarrow>
                       (case container file of
                          Inl InvalidDataError \<Rightarrow> Inr []
                        | Inl err \<Rightarrow> Inl err
                        | Inr c \<Rightarrow>
                            (case streams_video c of
                               [] \<Rightarrow> Inl IndexError
                             | stream # other \<Rightarrow> Inr (lower (codec_name stream)))))))"

definition get_file_res :: "media \<Rightarrow> string option \<Rightarrow> error + (int \<times> int)" where
  "get_file_res file file_ext0 =
     (let file_ext = resolve_ext file file_ext0
      in if file_ext = Some ''.tgs'' then
           (case lottie file of
              Inl err \<Rightarrow> Inl err
            | Inr anim \<Rightarrow> Inr (size anim))
         else if file_ext \<in> {Some ''.webp'', Some ''.png'', Some ''.apng''} then
           (case image file of
              Inl err \<Rightarrow> Inl err
            | Inr im \<Rightarrow> Inr (im_width im, im_height im))
         else
           (case container file of
              Inl err \<Rightarrow> Inl err
            | Inr c \<Rightarrow>
                (case streams_video c of
                   [] \<Rightarrow> Inl IndexError
                 | stream # other \<Rightarrow> Inr (stream_width stream, stream_height stream))))"

text \<open>The object \<open>CodecInfo(file, file_ext)\<close> builds.\<close>

record CodecInfo =
  file_ext :: "string option"
  fps :: rat
  frames :: int
  duration :: rat
  codec :: string
  res :: "int \<times> int"
  is_animated :: bool

text \<open>
  \<open>CodecInfo.__init__\<close>. The four static methods are called with the file alone, so
  each of them resolves the extension again, from the path.
\<close>

definition CodecInfo_init :: "media \<Rightarrow> string option \<Rightarrow> error + CodecInfo" where
  "CodecInfo_init file file_ext0 =
     (case get_file_fps_frames_duration file None of
        Inl err \<Rightarrow> Inl err
      | Inr (fps0, frames0, duration0) \<Rightarrow>
          (case get_file_codec file None of
             Inl err \<Rightarrow> Inl err
           | Inr codec0 \<Rightarrow>
               (case get_file_res file None of
                  Inl err \<Rightarrow> Inl err
                | Inr res0 \<Rightarrow>
                    Inr \<lparr>file_ext =
                           (if file_ext0 = None \<and> is_Path (source file)
                            then Some (get_file_ext (source file)) else file_ext0),
                         fps = fps0, frames = frames0, duration = duration0,
                         codec = codec0, res = res0, is_animated = (1 < fps0)\<rparr>)))"

subsection \<open>Concrete inputs\<close>

text \<open>
  An \<open>ANMF\<close> chunk: the marker, the chunk size and the frame's offsets and size
  (16 bytes, zero here), then the four bytes of the duration field at offset 20.
\<close>

definition anmf_chunk :: "byte list \<Rightarrow> byte list" where
  "anmf_chunk field = ANMF @ replicate 16 0 @ field"

text \<open>A container: the 12 bytes \<open>RIFF\<close>, size, \<open>WEBP\<close>, then the chunks.\<close>

definition riff_webp :: "byte list list \<Rightarrow> byte list" where
  "riff_webp chunks =
     [0x52, 0x49, 0x46, 0x46, 0, 0, 0, 0, 0x57, 0x45, 0x42, 0x50] @ concat chunks"

text \<open>
  A GIF with a single frame whose graphic control extension gives a delay of 100 ms,
  as Pillow reports it. PyAV is not asked on this path.
\<close>

definition gif_single_frame :: media where
  "gif_single_frame =
     \<lparr>source = Path ''.gif'' (Some [0x47, 0x49, 0x46, 0x38, 0x39, 0x61]),
      lottie = Inl ValueError,
      image = Inr \<lparr>has_n_frames = True, n_frames = 1,
                    info_duration = (\<lambda>i. Some (PInt 100)),
                    format = Some ''GIF'', has_is_animated = True, im_is_animated = False,
                    im_width = 64, im_height = 64\<rparr>,
      container = Inl InvalidDataError\<rparr>"

text \<open>A GIF with two frames of 1000 ms each; PyAV reads its size.\<close>

definition gif_two_slow_frames :: media where
  "gif_two_slow_frames =
     \<lparr>source = Path ''.gif'' (Some [0x47, 0x49, 0x46, 0x38, 0x39, 0x61]),
      lottie = Inl ValueError,
      image = Inr \<lparr>has_n_frames = True, n_frames = 2,
                    info_duration = (\<lambda>i. Some (PInt 1000)),
                    format = Some ''GIF'', has_is_animated = True, im_is_animated = True,
                    im_width = 64, im_height = 64\<rparr>,
      container = Inr \<lparr>container_duration = Some 2000000,
                        streams_video = [\<lparr>stream_frames = 2, stream_width = 64,
                                          stream_height = 64, codec_name = ''gif''\<rparr>],
                        decode = [\<lparr>pts = Some 0, time_base = 1 / 100\<rparr>,
                                  \<lparr>pts = Some 100, time_base = 1 / 100\<rparr>]\<rparr>\<rparr>"

text \<open>
  A video whose container carries no duration and whose stream carries no frame count:
  \<open>n\<close> decodable frames, 40 ms apart, on a time base of 1/1000 s.
\<close>

definition webm_frames :: "nat \<Rightarrow> media" where
  "webm_frames n =
     \<lparr>source = Path ''.webm'' (Some [0x1A, 0x45, 0xDF, 0xA3]),
      lottie = Inl ValueError,
      image = Inl UnidentifiedImageError,
      container = Inr \<lparr>container_duration = None,
                        streams_video = [\<lparr>stream_frames = 0, stream_width = 512,
                                          stream_height = 512, codec_name = ''vp9''\<rparr>],
                        decode = map (\<lambda>k. \<lparr>pts = Some (40 * int k), time_base = 1 / 1000\<rparr>)
                                   [0..<n]\<rparr>\<rparr>"

section \<open>Properties\<close>

subsection \<open>Rational duration algebra\<close>

lemma lcm_py_pos: "0 < b \<Longrightarrow> 0 < d \<Longrightarrow> lcm_py b d = Inr (lcm b d)"
proof -
  assume b: "0 < b" and d: "0 < d"
  then have "gcd b d \<noteq> 0" by simp
  moreover have "lcm b d = \<bar>b * d\<bar> div gcd b d"
    using b d by (simp add: lcm_altdef_int)
  ultimately show ?thesis by (simp add: lcm_py_def)
qed

lemma fraction_gcd_rgcd: "fraction_gcd x y = Inr (rgcd x y)"
proof -
  have b: "0 < snd (quotient_of x)" and d: "0 < snd (quotient_of y)"
    by (rule quotient_of_denom_pos')+
  then have l: "lcm (snd (quotient_of x)) (snd (quotient_of y)) \<noteq> 0" by simp
  show ?thesis
    using l by (simp add: fraction_gcd_def Let_def lcm_py_pos [OF b d] Fraction_def rgcd_def)
qed

lemma quotient_of_rgcd:
  "quotient_of (rgcd x y) =
     (gcd (fst (quotient_of x)) (fst (quotient_of y)),
      lcm (snd (quotient_of x)) (snd (quotient_of y)))"
proof -
  obtain a b where x: "quotient_of x = (a, b)" by (cases "quotient_of x")
  obtain c d where y: "quotient_of y = (c, d)" by (cases "quotient_of y")
  have b: "0 < b" and ab: "coprime a b"
    using x by (auto dest: quotient_of_denom_pos quotient_of_coprime)
  have d: "0 < d" and cd: "coprime c d"
    using y by (auto dest: quotient_of_denom_pos quotient_of_coprime)
  have pos: "0 < lcm b d"
    using b d by (metis lcm_pos_int less_numeral_extra(3))
  have "coprime (gcd a c) b"
    using ab by (metis coprime_divisors dvd_refl gcd_dvd1)
  moreover have "coprime (gcd a c) d"
    using cd by (metis coprime_divisors dvd_refl gcd_dvd2)
  ultimately have "coprime (gcd a c) (b * d)" by simp
  moreover have "lcm b d dvd b * d" by (rule lcm_least) simp_all
  ultimately have cop: "coprime (gcd a c) (lcm b d)"
    using coprime_divisors [OF dvd_refl] by blast
  show ?thesis
    using pos cop by (simp add: rgcd_def x y quotient_of_Fract)
qed

lemma rgcd_commute: "rgcd x y = rgcd y x"
  by (simp add: rgcd_def gcd.commute lcm.commute)

lemma rgcd_assoc: "rgcd (rgcd x y) z = rgcd x (rgcd y z)"
  by (simp add: rgcd_def [of "rgcd x y" z] rgcd_def [of x "rgcd y z"]
      quotient_of_rgcd gcd.assoc lcm.assoc)

lemma rgcd_left_commute: "rgcd x (rgcd y z) = rgcd y (rgcd x z)"
  by (metis rgcd_assoc rgcd_commute)

lemma fractions_gcd_loop_fold: "fractions_gcd_loop g fs = Inr (fold (\<lambda>f acc. rgcd acc f) fs g)"
  by (induction fs arbitrary: g) (simp_all add: fraction_gcd_rgcd)

lemma rgcd_fold_comm:
  "(\<lambda>acc. rgcd acc x) \<circ> (\<lambda>acc. rgcd acc y) = (\<lambda>acc. rgcd acc y) \<circ> (\<lambda>acc. rgcd acc x)"
proof (rule ext)
  fix a
  have "rgcd (rgcd a y) x = rgcd a (rgcd y x)" by (rule rgcd_assoc)
  also have "\<dots> = rgcd a (rgcd x y)" by (simp only: rgcd_commute [of y x])
  also have "\<dots> = rgcd (rgcd a x) y" by (rule rgcd_assoc [symmetric])
  finally show "((\<lambda>acc. rgcd acc x) \<circ> (\<lambda>acc. rgcd acc y)) a = ((\<lambda>acc. rgcd acc y) \<circ> (\<lambda>acc. rgcd acc x)) a"
    by simp
qed

lemma fold_rgcd_perm:
  "mset xs = mset ys \<Longrightarrow> fold (\<lambda>f acc. rgcd acc f) xs = fold (\<lambda>f acc. rgcd acc f) ys"
  by (rule fold_multiset_equiv) (simp_all add: rgcd_fold_comm)

text \<open>The fold started at the first element depends on the multiset of all elements only.\<close>

lemma fold_rgcd_mset:
  assumes "mset (g # xs) = mset (h # ys)"
  shows "fold (\<lambda>f acc. rgcd acc f) xs g = fold (\<lambda>f acc. rgcd acc f) ys h"
proof (cases "g = h")
  case True
  with assms have "mset xs = mset ys" by simp
  from fold_rgcd_perm [OF this] show ?thesis using True by simp
next
  case False
  from assms have "add_mset g (mset xs) = add_mset h (mset ys)" by simp
  with False have hx: "h \<in># mset xs"
    by (metis insert_noteq_member)
  then obtain zs where zs: "mset xs = add_mset h (mset zs)"
    by (metis ex_mset insert_DiffM)
  have "add_mset g (add_mset h (mset zs)) = add_mset h (mset ys)"
    using assms zs by simp
  then have ys: "mset ys = add_mset g (mset zs)"
    by (simp add: add_mset_commute)
  have "mset xs = mset (h # zs)" using zs by simp
  from fold_rgcd_perm [OF this]
  have 1: "fold (\<lambda>f acc. rgcd acc f) xs g = fold (\<lambda>f acc. rgcd acc f) zs (rgcd g h)"
    by simp
  have "mset ys = mset (g # zs)" using ys by simp
  from fold_rgcd_perm [OF this]
  have 2: "fold (\<lambda>f acc. rgcd acc f) ys h = fold (\<lambda>f acc. rgcd acc f) zs (rgcd h g)"
    by simp
  show ?thesis unfolding 1 2 by (simp only: rgcd_commute [of g h])
qed

lemma fractions_gcd_perm:
  assumes "xs \<noteq> []" and "mset ys = mset xs"
  shows "fractions_gcd ys = fractions_gcd xs"
proof -
  obtain g xs' where xs: "xs = g # xs'" using assms(1) by (cases xs) auto
  from assms have "ys \<noteq> []" by auto
  then obtain h ys' where ys: "ys = h # ys'" by (cases ys) auto
  have "mset (g # xs') = mset (h # ys')" using assms(2) xs ys by simp
  from fold_rgcd_mset [OF this] show ?thesis
    by (simp add: fractions_gcd_def xs ys fractions_gcd_loop_fold)
qed

text \<open>\<open>fractions_gcd\<close> is the left-to-right fold of \<open>fraction_gcd\<close>.\<close>

lemma fractions_gcd_single: "fractions_gcd [x] = Inr x"
  by (simp add: fractions_gcd_def)

lemma fractions_gcd_snoc:
  assumes "xs \<noteq> []"
  shows "fractions_gcd (xs @ [y]) =
           (case fractions_gcd xs of Inl e \<Rightarrow> Inl e | Inr g \<Rightarrow> fraction_gcd g y)"
proof -
  obtain g xs' where xs: "xs = g # xs'" using assms by (cases xs) auto
  show ?thesis
    by (simp add: xs fractions_gcd_def fractions_gcd_loop_fold fraction_gcd_rgcd)
qed

text \<open>On integers the operation is the integer gcd, and the fold gives the gcd of the list.\<close>

lemma rgcd_of_int: "rgcd (of_int a) (of_int b) = of_int (gcd a b)"
  by (simp add: rgcd_def Fract_of_int_eq)

lemma fold_rgcd_of_int:
  "0 \<le> g \<Longrightarrow>
   fold (\<lambda>f acc. rgcd acc f) (map rat_of_int ds) (rat_of_int g) = rat_of_int (gcd g (Gcd (set ds)))"
proof (induction ds arbitrary: g)
  case Nil
  then show ?case by simp
next
  case (Cons d ds)
  have "fold (\<lambda>f acc. rgcd acc f) (map rat_of_int (d # ds)) (rat_of_int g)
          = fold (\<lambda>f acc. rgcd acc f) (map rat_of_int ds) (rat_of_int (gcd g d))"
    by (simp add: rgcd_of_int)
  also have "\<dots> = rat_of_int (gcd (gcd g d) (Gcd (set ds)))"
    by (rule Cons.IH) simp
  also have "gcd (gcd g d) (Gcd (set ds)) = gcd g (Gcd (set (d # ds)))"
    by (simp add: gcd.assoc)
  finally show ?case .
qed

lemma fractions_gcd_ints:
  assumes "D \<noteq> []" and "\<forall>d \<in> set D. 0 < d"
  shows "fractions_gcd (map rat_of_int D) = Inr (rat_of_int (Gcd (set D)))"
proof -
  obtain d ds where D: "D = d # ds" using assms(1) by (cases D) auto
  have "0 \<le> d" using assms(2) D by auto
  from fold_rgcd_of_int [OF this, of ds] show ?thesis
    by (simp add: D fractions_gcd_def fractions_gcd_loop_fold)
qed

text \<open>
  Claim C7. \<open>fraction_gcd x y\<close> always returns, and its value is the gcd of the two
  numerators over the lcm of the two denominators; the operation is commutative and
  associative. \<open>fractions_gcd\<close> is its left-to-right fold: it returns the element of
  a one-element list, and a list extended by \<open>y\<close> gives \<open>fraction_gcd\<close> of the result
  so far and \<open>y\<close>. The fold does not depend on the order of a non-empty list; and
  for a non-empty list \<open>D\<close> of positive integer durations it yields the tick, the
  greatest common divisor of \<open>D\<close>, for \<open>D\<close> and for every permutation \<open>D'\<close> of \<open>D\<close>.
\<close>

theorem fraction_gcd_assoc_comm_perm:
  fixes x y z :: rat and xs ys :: "rat list" and D D' :: "int list"
  shows "fraction_gcd x y =
           Inr (Fract (gcd (fst (quotient_of x)) (fst (quotient_of y)))
                      (lcm (snd (quotient_of x)) (snd (quotient_of y))))
       \<and> fraction_gcd x y = fraction_gcd y x
       \<and> (case fraction_gcd x y of Inl e \<Rightarrow> Inl e | Inr g \<Rightarrow> fraction_gcd g z)
           = (case fraction_gcd y z of Inl e \<Rightarrow> Inl e | Inr g \<Rightarrow> fraction_gcd x g)
       \<and> fractions_gcd [x] = Inr x
       \<and> (xs \<noteq> [] \<longrightarrow>
            fractions_gcd (xs @ [y]) =
              (case fractions_gcd xs of Inl e \<Rightarrow> Inl e | Inr g \<Rightarrow> fraction_gcd g y))
       \<and> (xs \<noteq> [] \<and> mset ys = mset xs \<longrightarrow> fractions_gcd ys = fractions_gcd xs)
       \<and> (D \<noteq> [] \<and> (\<forall>d \<in> set D. 0 < d) \<and> mset D' = mset D \<longrightarrow>
            fractions_gcd (map rat_of_int D) = Inr (rat_of_int (Gcd (set D)))
          \<and> fractions_gcd (map rat_of_int D') = Inr (rat_of_int (Gcd (set D))))"
proof (intro conjI impI)
  show "fraction_gcd x y =
          Inr (Fract (gcd (fst (quotient_of x)) (fst (quotient_of y)))
                     (lcm (snd (quotient_of x)) (snd (quotient_of y))))"
    by (simp add: fraction_gcd_rgcd rgcd_def)
  show "fraction_gcd x y = fraction_gcd y x"
    by (simp add: fraction_gcd_rgcd rgcd_commute)
  show "(case fraction_gcd x y of Inl e \<Rightarrow> Inl e | Inr g \<Rightarrow> fraction_gcd g z)
      = (case fraction_gcd y z of Inl e \<Rightarrow> Inl e | Inr g \<Rightarrow> fraction_gcd x g)"
    by (simp add: fraction_gcd_rgcd rgcd_assoc)
  show "fractions_gcd [x] = Inr x"
    by (rule fractions_gcd_single)
next
  assume "xs \<noteq> []"
  then show "fractions_gcd (xs @ [y]) =
      (case fractions_gcd xs of Inl e \<Rightarrow> Inl e | Inr g \<Rightarrow> fraction_gcd g y)"
    by (rule fractions_gcd_snoc)
next
  assume "xs \<noteq> [] \<and> mset ys = mset xs"
  then show "fractions_gcd ys = fractions_gcd xs"
    by (simp add: fractions_gcd_perm)
next
  assume h: "D \<noteq> [] \<and> (\<forall>d \<in> set D. 0 < d) \<and> mset D' = mset D"
  then show "fractions_gcd (map rat_of_int D) = Inr (rat_of_int (Gcd (set D)))"
    by (simp add: fractions_gcd_ints)
next
  assume h: "D \<noteq> [] \<and> (\<forall>d \<in> set D. 0 < d) \<and> mset D' = mset D"
  then have s: "set D' = set D" by (metis mset_eq_setD)
  from h have "D' \<noteq> []" by auto
  moreover have "\<forall>d \<in> set D'. 0 < d" using h s by simp
  ultimately show "fractions_gcd (map rat_of_int D') = Inr (rat_of_int (Gcd (set D)))"
    using s by (simp add: fractions_gcd_ints)
qed

text \<open>
  The durations 40, 100, 60 and a permutation of them: the tick is 20 for both; and
  the rationals \<open>1/2\<close>, \<open>3/4\<close>, \<open>5/6\<close> fold to \<open>1/12\<close> in either order.
\<close>

theorem fraction_gcd_assoc_comm_perm_witness:
  "[1 / 2, 3 / 4 :: rat] \<noteq> []
   \<and> mset [5 / 6, 1 / 2, 3 / 4 :: rat] = mset [1 / 2, 3 / 4, 5 / 6]
   \<and> [40, 100, 60 :: int] \<noteq> [] \<and> (0 :: int) < 40 \<and> (0 :: int) < 100 \<and> (0 :: int) < 60
   \<and> mset [60, 40, 100 :: int] = mset [40, 100, 60]
   \<and> fractions_gcd [1 / 2, 3 / 4] = Inr (1 / 4)
   \<and> fractions_gcd ([1 / 2, 3 / 4] @ [5 / 6]) = Inr (1 / 12)
   \<and> fractions_gcd [5 / 6, 1 / 2, 3 / 4] = Inr (1 / 12)
   \<and> fractions_gcd (map rat_of_int [40, 100, 60]) = Inr 20
   \<and> fractions_gcd (map rat_of_int [60, 40, 100]) = Inr 20"
proof -
  have a: "fractions_gcd [1 / 2, 3 / 4] = Inr (1 / 4)" by code_simp
  have b: "fraction_gcd (1 / 4) (5 / 6) = Inr (1 / 12)" by code_simp
  have g: "Gcd (set [40, 100, 60 :: int]) = 20" by code_simp
  have m1: "mset [5 / 6, 1 / 2, 3 / 4 :: rat] = mset [1 / 2, 3 / 4, 5 / 6]" by simp
  have m2: "mset [60, 40, 100 :: int] = mset [40, 100, 60]" by simp
  have p: "\<forall>d \<in> set [40, 100, 60 :: int]. 0 < d" by simp
  note t = fraction_gcd_assoc_comm_perm
    [where xs = "[1 / 2, 3 / 4]" and y = "5 / 6"
       and D = "[40, 100, 60]" and D' = "[60, 40, 100]"]
  have c: "fractions_gcd ([1 / 2, 3 / 4] @ [5 / 6]) = Inr (1 / 12)"
    using t a b by simp
  have d: "fractions_gcd [5 / 6, 1 / 2, 3 / 4] = Inr (1 / 12)"
  proof -
    have "[1 / 2, 3 / 4, 5 / 6 :: rat] \<noteq> []
        \<and> mset [5 / 6, 1 / 2, 3 / 4 :: rat] = mset [1 / 2, 3 / 4, 5 / 6]"
      using m1 by simp
    with fraction_gcd_assoc_comm_perm
      [where xs = "[1 / 2, 3 / 4, 5 / 6]" and ys = "[5 / 6, 1 / 2, 3 / 4]"]
    have "fractions_gcd [5 / 6, 1 / 2, 3 / 4] = fractions_gcd [1 / 2, 3 / 4, 5 / 6]"
      by blast
    with c show ?thesis by simp
  qed
  have e: "fractions_gcd (map rat_of_int [40, 100, 60]) = Inr 20
         \<and> fractions_gcd (map rat_of_int [60, 40, 100]) = Inr 20"
    using t p m2 g by simp
  from a c d e m1 m2 show ?thesis by simp
qed

subsection \<open>Chunked raster strategy: the duration field\<close>

text \<open>
  The zero bytes appended after the first three bytes do not change the little-endian
  value, so a field of four bytes decodes to the value of its first three bytes.
\<close>

lemma from_bytes_little_zeros: "from_bytes_little (bs @ replicate k 0) = from_bytes_little bs"
proof (induction bs)
  case Nil
  show ?case by (induction k) simp_all
next
  case (Cons b bs)
  then show ?case by simp
qed

lemma decode_frame_duration_low3:
  "decode_frame_duration [b0, b1, b2, b3] = uint b0 + 256 * uint b1 + 65536 * uint b2"
  by (simp add: decode_frame_duration_def from_bytes_little_zeros [of "[b0, b1, b2]", simplified])

lemma decode_frame_duration_ignores_fourth:
  "decode_frame_duration [b0, b1, b2, b3] = decode_frame_duration [b0, b1, b2, b3']"
  by (simp only: decode_frame_duration_low3)

text \<open>
  Claim C4. The code keeps the first three bytes of the field only: the fourth byte
  becomes the \<^emph>\<open>number\<close> of zero bytes appended, so its upper six bits never reach the
  value. At the field \<open>64 00 00 04\<close> the code decodes 100, the reading of the
  specification gives \<open>100 + 4 * 2^24\<close>.
\<close>

theorem decode_frame_duration_drops_fourth_byte:
  "decode_frame_duration [100, 0, 0, 4] = 100
   \<and> masked_duration_spec [100, 0, 0, 4] = 67108964
   \<and> get_file_fps_frames_duration_webp
        (Path ''.webp'' (Some (riff_webp [anmf_chunk [100, 0, 0, 4], anmf_chunk [100, 0, 0, 4]])))
       = Inr (10, 2, 200)"
proof -
  have "decode_frame_duration [100, 0, 0, 4] = 100" by code_simp
  moreover have "masked_duration_spec [100, 0, 0, 4] = 67108964" by code_simp
  moreover have "get_file_fps_frames_duration_webp
        (Path ''.webp'' (Some (riff_webp [anmf_chunk [100, 0, 0, 4], anmf_chunk [100, 0, 0, 4]])))
       = Inr (10, 2, 200)" by code_simp
  ultimately show ?thesis by simp
qed

text \<open>
  Claim C10. Two frame chunks whose duration fields are both 0: the list of distinct
  nonzero durations is empty, \<open>durations_gcd()\<close> is \<open>Fraction(0, 1)\<close>, and
  \<open>total_duration / duration_gcd\<close> raises \<open>ZeroDivisionError\<close>.
\<close>

theorem webp_all_zero_durations_raises:
  "webp_scan (riff_webp [anmf_chunk [0, 0, 0, 0], anmf_chunk [0, 0, 0, 0]]) scan_init
     = Inr (0, 2, [])
   \<and> durations_gcd [] = Inr (TFraction 0)
   \<and> get_file_fps_frames_duration_webp
        (Path ''.webp'' (Some (riff_webp [anmf_chunk [0, 0, 0, 0], anmf_chunk [0, 0, 0, 0]])))
       = Inl ZeroDivisionError"
proof -
  have "webp_scan (riff_webp [anmf_chunk [0, 0, 0, 0], anmf_chunk [0, 0, 0, 0]]) scan_init
     = Inr (0, 2, [])" by code_simp
  moreover have "durations_gcd [] = Inr (TFraction 0)" by code_simp
  moreover have "get_file_fps_frames_duration_webp
        (Path ''.webp'' (Some (riff_webp [anmf_chunk [0, 0, 0, 0], anmf_chunk [0, 0, 0, 0]])))
       = Inl ZeroDivisionError" by code_simp
  ultimately show ?thesis by simp
qed

subsection \<open>Chunked raster strategy: the frame rate\<close>

text \<open>The state at the end of the scan is the fold of the loop body over the decoded fields.\<close>

lemma webp_scan_fold:
  "webp_scan rest st = Inr st' \<Longrightarrow>
   st' = fold scan_step (map decode_frame_duration (anmf_fields rest)) st"
proof (induction rest st rule: webp_scan.induct)
  case (1 rest st)
  show ?case
  proof (cases "find_sub ANMF rest")
    case None
    with "1.prems" show ?thesis
      by (simp add: webp_scan.simps [of rest] anmf_fields.simps [of rest])
  next
    case (Some anmf_pos)
    let ?rd = "take 4 (drop (anmf_pos + 20) rest)"
    from "1.prems" Some have a: "\<not> length rest < anmf_pos + 20" and b: "?rd \<noteq> []"
      by (auto simp: webp_scan.simps [of rest] split: if_splits)
    from "1.prems" Some a b
    have "webp_scan (drop (anmf_pos + 20 + length ?rd) rest)
            (scan_step (decode_frame_duration ?rd) st) = Inr st'"
      by (simp add: webp_scan.simps [of rest])
    from "1.IH" [OF Some a b this] show ?thesis
      using Some a b by (simp add: anmf_fields.simps [of rest])
  qed
qed

text \<open>
  Where the upper six bits of the fourth byte are clear, the code's reading of a field
  is the reading of the specification.
\<close>

lemma decode_frame_duration_masked:
  assumes "last f AND 0b11111100 = 0"
  shows "decode_frame_duration f = masked_duration_spec f"
  using assms from_bytes_little_zeros [of "butlast f" 1]
  by (simp add: decode_frame_duration_def masked_duration_spec_def)

lemma fold_scan_step_total:
  "fst (fold scan_step ds (t, n, acc)) = t + sum_list ds"
  by (induction ds arbitrary: t n acc) auto

lemma fold_scan_step_frames:
  "fst (snd (fold scan_step ds (t, n, acc))) = n + int (length ds)"
  by (induction ds arbitrary: t n acc) auto

lemma fold_scan_step_durations:
  "distinct acc \<Longrightarrow>
   distinct (snd (snd (fold scan_step ds (t, n, acc)))) \<and>
   set (snd (snd (fold scan_step ds (t, n, acc)))) = set acc \<union> (set ds - {0})"
  by (induction ds arbitrary: t n acc) auto

lemma gcd_py_Gcd: "gcd_py xs = Gcd (set xs)"
proof -
  have "0 \<le> a \<Longrightarrow> fold gcd xs a = gcd a (Gcd (set xs))" for a :: int
  proof (induction xs arbitrary: a)
    case Nil
    then show ?case by simp
  next
    case (Cons x xs)
    have "fold gcd (x # xs) a = fold gcd xs (gcd x a)" by simp
    also have "\<dots> = gcd (gcd x a) (Gcd (set xs))" by (rule Cons.IH) simp
    also have "\<dots> = gcd a (Gcd (set (x # xs)))"
      by (simp add: gcd.assoc gcd.left_commute gcd.commute)
    finally show ?case .
  qed
  then show ?thesis by (simp add: gcd_py_def)
qed

lemma ints_of_PInt: "ints_of (map PInt xs) = Inr xs"
  by (induction xs) simp_all

lemma durations_gcd_ints: "durations_gcd (map PInt xs) = Inr (TFraction (of_int (Gcd (set xs))))"
  by (simp add: durations_gcd_def any_float_def ints_of_PInt Fraction_def gcd_py_Gcd Fract_of_int_eq)

lemma sum_list_const: "\<forall>x \<in> set ds. x = d \<Longrightarrow> sum_list ds = int (length ds) * d"
  by (induction ds) (simp_all add: algebra_simps)

lemma webp_result_fewer_than_two:
  assumes "length ds < 2"
  shows "webp_result (fold scan_step ds scan_init) = Inr (0, 1, 0)"
proof -
  obtain t n dd where st: "fold scan_step ds (0, 0, []) = (t, n, dd)"
    by (cases "fold scan_step ds (0, 0, [])") auto
  have "n = int (length ds)"
    using fold_scan_step_frames [of ds 0 0 "[]"] st by simp
  then have "n \<le> 1" using assms by simp
  then show ?thesis using st by (simp add: scan_init_def)
qed

lemma webp_result_two_or_more:
  assumes len: "2 \<le> length ds" and pos: "\<forall>d \<in> set ds. 0 < d"
  shows "webp_result (fold scan_step ds scan_init) =
           Inr (if card (set ds) = 1
                then round_double (round_double (of_int (int (length ds)) / of_int (sum_list ds)) * 1000)
                else round_double (1000 / of_int (Gcd (set ds))),
                int (length ds), of_int (sum_list ds))"
proof -
  obtain t n dd where st: "fold scan_step ds (0, 0, []) = (t, n, dd)"
    by (cases "fold scan_step ds (0, 0, [])") auto
  have t: "t = sum_list ds"
    using fold_scan_step_total [of ds 0 0 "[]"] st by simp
  have n: "n = int (length ds)"
    using fold_scan_step_frames [of ds 0 0 "[]"] st by simp
  have dd: "distinct dd" "set dd = set ds - {0}"
    using fold_scan_step_durations [of "[]" ds 0 0] st by simp_all
  have set_dd: "set dd = set ds" using dd(2) pos by auto
  have card: "length dd = card (set ds)"
    using dd(1) set_dd by (metis distinct_card)
  from len obtain x where x: "x \<in> set ds" by (cases ds) auto
  have tpos: "0 < t" unfolding t
    using len pos by (cases ds) (auto intro: add_pos_nonneg sum_list_nonneg less_imp_le)
  have G: "0 < Gcd (set ds)"
  proof -
    have "Gcd (set ds) \<noteq> 0" using x pos by (auto simp: Gcd_0_iff)
    moreover have "0 \<le> Gcd (set ds)" by simp
    ultimately show ?thesis by linarith
  qed
  have n2: "\<not> n \<le> 1" using len n by simp
  show ?thesis
  proof (cases "card (set ds) = 1")
    case True
    then have "length dd = 1" using card by simp
    then show ?thesis
      using True tpos n2 st
      by (simp add: scan_init_def float_truediv_def float_mul_def n [symmetric] t [symmetric])
  next
    case False
    then have l: "length dd \<noteq> 1" using card by simp
    have g: "durations_gcd (map PInt dd) = Inr (TFraction (of_int (Gcd (set ds))))"
      by (simp add: durations_gcd_ints set_dd)
    have q: "rat_of_int t / rat_of_int (Gcd (set ds)) / rat_of_int t * 1000
               = 1000 / rat_of_int (Gcd (set ds))"
      using tpos by simp
    have nz: "\<not> set ds \<subseteq> {0}" using x pos by auto
    have "webp_result (t, n, dd) =
            Inr (round_double (1000 / rat_of_int (Gcd (set ds))), n, rat_of_int t)"
      using l n2 g tpos nz q by (simp add: truediv_def)
    then show ?thesis
      using False st by (simp add: scan_init_def n t)
  qed
qed

text \<open>
  Claim C6, amended. For a container given as the path of a file that can be mapped,
  and on which the scan finishes, with the per-frame durations read from the duration
  fields as the specification reads them:
  \<^item> fewer than two frame chunks give \<open>(0, 1, 0)\<close>;
  \<^item> two or more chunks, whose fields have four bytes with the upper six bits of the
    fourth byte clear and whose durations are positive, give the number of chunks as
    frame count and the sum of the durations as duration; with at least two distinct
    durations, \<open>fps\<close> is the float nearest to \<open>1000 / t\<close>, \<open>t\<close> the greatest common
    divisor of the durations; with one distinct duration, \<open>fps\<close> is
    \<open>frame_count / total_duration * 1000\<close> as floating point computes it, the quotient
    \<open>1 / t\<close> rounded, then the product rounded.
\<close>

theorem webp_fps_common_tick:
  assumes "open_mmap file = Inr mm"
    and "webp_scan mm scan_init = Inr st"
    and "ds = map masked_duration_spec (anmf_fields mm)"
  shows "(length ds < 2 \<longrightarrow> get_file_fps_frames_duration_webp file = Inr (0, 1, 0))
       \<and> (2 \<le> length ds
            \<and> (\<forall>f \<in> set (anmf_fields mm). length f = 4 \<and> last f AND 0b11111100 = 0)
            \<and> (\<forall>d \<in> set ds. 0 < d) \<longrightarrow>
            (2 \<le> card (set ds) \<longrightarrow>
               get_file_fps_frames_duration_webp file =
                 Inr (round_double (1000 / of_int (Gcd (set ds))),
                      int (length ds), of_int (sum_list ds)))
          \<and> (card (set ds) = 1 \<longrightarrow>
               get_file_fps_frames_duration_webp file =
                 Inr (round_double
                        (round_double (of_int (int (length ds)) / of_int (sum_list ds)) * 1000),
                      int (length ds), of_int (sum_list ds))
             \<and> rat_of_int (int (length ds)) / of_int (sum_list ds)
                 = 1 / of_int (Gcd (set ds))))"
proof -
  let ?cs = "map decode_frame_duration (anmf_fields mm)"
  have st: "st = fold scan_step ?cs scan_init"
    using assms(2) by (rule webp_scan_fold)
  have res: "get_file_fps_frames_duration_webp file = webp_result (fold scan_step ?cs scan_init)"
    using assms(1,2) st by (simp add: get_file_fps_frames_duration_webp_def)
  have len: "length ?cs = length ds" by (simp add: assms(3))
  have few: "get_file_fps_frames_duration_webp file = Inr (0, 1, 0)" if "length ds < 2"
    using that webp_result_fewer_than_two [of ?cs] res len by simp
  have many:
    "(2 \<le> card (set ds) \<longrightarrow>
        get_file_fps_frames_duration_webp file =
          Inr (round_double (1000 / of_int (Gcd (set ds))), int (length ds), of_int (sum_list ds)))
     \<and> (card (set ds) = 1 \<longrightarrow>
          get_file_fps_frames_duration_webp file =
            Inr (round_double
                   (round_double (of_int (int (length ds)) / of_int (sum_list ds)) * 1000),
                 int (length ds), of_int (sum_list ds))
        \<and> rat_of_int (int (length ds)) / of_int (sum_list ds) = 1 / of_int (Gcd (set ds)))"
    if l2: "2 \<le> length ds"
      and wf: "\<forall>f \<in> set (anmf_fields mm). length f = 4 \<and> last f AND 0b11111100 = 0"
      and pos: "\<forall>d \<in> set ds. 0 < d"
  proof -
    have eq: "?cs = ds"
      using wf by (simp add: assms(3) decode_frame_duration_masked)
    have r: "get_file_fps_frames_duration_webp file =
        Inr (if card (set ds) = 1
             then round_double (round_double (of_int (int (length ds)) / of_int (sum_list ds)) * 1000)
             else round_double (1000 / of_int (Gcd (set ds))),
             int (length ds), of_int (sum_list ds))"
      using webp_result_two_or_more [OF l2 pos] res eq by simp
    have one: "rat_of_int (int (length ds)) / of_int (sum_list ds) = 1 / of_int (Gcd (set ds))"
      if c: "card (set ds) = 1"
    proof -
      from c obtain d where d: "set ds = {d}" by (auto simp: card_1_singleton_iff)
      then have all: "\<forall>x \<in> set ds. x = d" by auto
      have dpos: "0 < d" using d pos by auto
      have "sum_list ds = int (length ds) * d" by (rule sum_list_const [OF all])
      moreover have "Gcd (set ds) = d" using d dpos by simp
      moreover have "length ds \<noteq> 0" using l2 by auto
      ultimately show ?thesis using dpos by simp
    qed
    show ?thesis using r one by auto
  qed
  from few many show ?thesis by blast
qed

text \<open>
  Five chunks of 100 ms give \<open>(10, 5, 500)\<close>; chunks of 40, 100 and 60 ms have the
  tick 20 and give \<open>(50, 3, 200)\<close>; a single chunk gives \<open>(0, 1, 0)\<close>.
\<close>

theorem webp_fps_common_tick_witness:
  "open_mmap (Path ''.webp'' (Some (riff_webp (replicate 5 (anmf_chunk [100, 0, 0, 0])))))
     = Inr (riff_webp (replicate 5 (anmf_chunk [100, 0, 0, 0])))
   \<and> webp_scan (riff_webp (replicate 5 (anmf_chunk [100, 0, 0, 0]))) scan_init
       = Inr (500, 5, [100])
   \<and> anmf_fields (riff_webp (replicate 5 (anmf_chunk [100, 0, 0, 0])))
       = [[100, 0, 0, 0], [100, 0, 0, 0], [100, 0, 0, 0], [100, 0, 0, 0], [100, 0, 0, 0]]
   \<and> map masked_duration_spec (anmf_fields (riff_webp (replicate 5 (anmf_chunk [100, 0, 0, 0]))))
       = [100, 100, 100, 100, 100]
   \<and> get_file_fps_frames_duration_webp
        (Path ''.webp'' (Some (riff_webp (replicate 5 (anmf_chunk [100, 0, 0, 0])))))
       = Inr (10, 5, 500)
   \<and> anmf_fields
        (riff_webp [anmf_chunk [40, 0, 0, 0], anmf_chunk [100, 0, 0, 0], anmf_chunk [60, 0, 0, 0]])
       = [[40, 0, 0, 0], [100, 0, 0, 0], [60, 0, 0, 0]]
   \<and> get_file_fps_frames_duration_webp
        (Path ''.webp'' (Some
          (riff_webp [anmf_chunk [40, 0, 0, 0], anmf_chunk [100, 0, 0, 0], anmf_chunk [60, 0, 0, 0]])))
       = Inr (50, 3, 200)
   \<and> anmf_fields (riff_webp [anmf_chunk [100, 0, 0, 0]]) = [[100, 0, 0, 0]]
   \<and> get_file_fps_frames_duration_webp (Path ''.webp'' (Some (riff_webp [anmf_chunk [100, 0, 0, 0]])))
       = Inr (0, 1, 0)"
proof -
  let ?a = "riff_webp (replicate 5 (anmf_chunk [100, 0, 0, 0]))"
  let ?b = "riff_webp [anmf_chunk [40, 0, 0, 0], anmf_chunk [100, 0, 0, 0], anmf_chunk [60, 0, 0, 0]]"
  let ?c = "riff_webp [anmf_chunk [100, 0, 0, 0]]"
  have a1: "open_mmap (Path ''.webp'' (Some ?a)) = Inr ?a" by code_simp
  have a2: "webp_scan ?a scan_init = Inr (500, 5, [100])" by code_simp
  have a3: "anmf_fields ?a
      = [[100, 0, 0, 0], [100, 0, 0, 0], [100, 0, 0, 0], [100, 0, 0, 0], [100, 0, 0, 0]]"
    by code_simp
  have a4: "map masked_duration_spec (anmf_fields ?a) = [100, 100, 100, 100, 100]"
    unfolding a3 by code_simp
  have a5: "round_double (round_double (5 / 500) * 1000) = 10" by code_simp
  have a6: "get_file_fps_frames_duration_webp (Path ''.webp'' (Some ?a)) = Inr (10, 5, 500)"
    using webp_fps_common_tick [OF a1 a2 a4 [symmetric]] a5
    by (simp add: a3)
  have b1: "open_mmap (Path ''.webp'' (Some ?b)) = Inr ?b" by code_simp
  have b2: "webp_scan ?b scan_init = Inr (200, 3, [40, 100, 60])" by code_simp
  have b3: "anmf_fields ?b = [[40, 0, 0, 0], [100, 0, 0, 0], [60, 0, 0, 0]]" by code_simp
  have b4: "map masked_duration_spec (anmf_fields ?b) = [40, 100, 60]"
    unfolding b3 by code_simp
  have b5: "round_double (1000 / 20) = 50" by code_simp
  have b6: "Gcd (set [40, 100, 60 :: int]) = 20" by code_simp
  have b7: "card (set [40, 100, 60 :: int]) = 3" by simp
  have b8: "get_file_fps_frames_duration_webp (Path ''.webp'' (Some ?b)) = Inr (50, 3, 200)"
    using webp_fps_common_tick [OF b1 b2 b4 [symmetric]] b5 b6 b7
    by (simp add: b3)
  have c1: "open_mmap (Path ''.webp'' (Some ?c)) = Inr ?c" by code_simp
  have c2: "webp_scan ?c scan_init = Inr (100, 1, [100])" by code_simp
  have c3: "anmf_fields ?c = [[100, 0, 0, 0]]" by code_simp
  have c4: "[masked_duration_spec [100, 0, 0, 0]] = map masked_duration_spec (anmf_fields ?c)"
    by (simp add: c3)
  have c5: "get_file_fps_frames_duration_webp (Path ''.webp'' (Some ?c)) = Inr (0, 1, 0)"
    using webp_fps_common_tick [OF c1 c2 c4] by simp
  from a1 a2 a3 a4 a6 b3 b8 c3 c5 show ?thesis by (intro conjI)
qed

text \<open>
  Two chunks of 9 ms. The durations are multiples of the tick 9; the code divides 2 by
  18 and multiplies by 1000 in floating point and returns \<open>111.1111111111111\<close>, which
  is neither \<open>1000 / 9\<close> nor the float nearest to it, \<open>111.11111111111111\<close>.
\<close>

theorem webp_two_chunks_of_9ms_counterexample:
  "map masked_duration_spec (anmf_fields (riff_webp [anmf_chunk [9, 0, 0, 0], anmf_chunk [9, 0, 0, 0]]))
     = [9, 9]
   \<and> get_file_fps_frames_duration_webp
        (Path ''.webp'' (Some (riff_webp [anmf_chunk [9, 0, 0, 0], anmf_chunk [9, 0, 0, 0]])))
       = Inr (7818749353073777 / 70368744177664, 2, 18)
   \<and> (7818749353073777 / 70368744177664 :: rat) \<noteq> 1000 / 9
   \<and> round_double (1000 / 9) = 3909374676536889 / 35184372088832
   \<and> (7818749353073777 / 70368744177664 :: rat) \<noteq> 3909374676536889 / 35184372088832"
proof -
  have 1: "map masked_duration_spec
             (anmf_fields (riff_webp [anmf_chunk [9, 0, 0, 0], anmf_chunk [9, 0, 0, 0]])) = [9, 9]"
    by code_simp
  have 2: "get_file_fps_frames_duration_webp
        (Path ''.webp'' (Some (riff_webp [anmf_chunk [9, 0, 0, 0], anmf_chunk [9, 0, 0, 0]])))
       = Inr (7818749353073777 / 70368744177664, 2, 18)"
    by code_simp
  have 3: "(7818749353073777 / 70368744177664 :: rat) \<noteq> 1000 / 9" by simp
  have 4: "round_double (1000 / 9) = 3909374676536889 / 35184372088832" by code_simp
  have 5: "(7818749353073777 / 70368744177664 :: rat) \<noteq> 3909374676536889 / 35184372088832"
    by simp
  from 1 2 3 4 5 show ?thesis by (intro conjI)
qed

subsection \<open>Generic animated raster strategy\<close>

text \<open>
  A single-frame image that has the attribute \<open>n_frames\<close> goes through the loop once:
  the result carries the frame's duration (1000 when the attribute is absent) and the
  frame rate computed from it.
\<close>

lemma pillow_single_frame:
  assumes "image file = Inr im" and "has_n_frames im" and "n_frames im = 1"
    and "d = (case info_duration im 0 of None \<Rightarrow> PInt 1000 | Some v \<Rightarrow> v)"
    and "num_val d \<noteq> 0"
  shows "get_file_fps_frames_duration_pillow file False = Inr (1000 / num_val d, 1, num_val d)"
  using assms
  by (simp add: get_file_fps_frames_duration_pillow_def frame_durations_def truediv_def)

text \<open>
  Claim C1. A GIF with one frame and a frame delay of 100 ms: the strategy, and the
  facade with it, return \<open>fps = 10\<close>, \<open>frames = 1\<close>, \<open>duration = 100\<close>, not
  \<open>(0, 1, 0)\<close>.
\<close>

theorem pillow_single_frame_keeps_duration:
  "get_file_fps_frames_duration_pillow gif_single_frame False = Inr (10, 1, 100)
   \<and> get_file_fps_frames_duration gif_single_frame None = Inr (10, 1, 100)
   \<and> get_file_fps_frames_duration_pillow gif_single_frame False \<noteq> Inr (0, 1, 0)"
proof -
  have 1: "get_file_fps_frames_duration_pillow gif_single_frame False = Inr (10, 1, 100)"
    by code_simp
  have 2: "get_file_fps_frames_duration gif_single_frame None = Inr (10, 1, 100)"
    by code_simp
  show ?thesis unfolding 1 2 by simp
qed

subsection \<open>Decode-fallback strategy\<close>

text \<open>
  Without a bound the loop runs to the end of the stream, and \<open>frame_count\<close> is left
  at the index of the last frame: one less than the number of frames decoded.
\<close>

lemma decode_loop_unbounded:
  "decode_loop None fs i (fc, lf) =
     (if fs = [] then (fc, lf) else (i + length fs - 1, Some (last fs)))"
  by (induction fs arbitrary: i fc lf) auto

lemma av_frame_count_unbounded:
  assumes "container file = Inr c" and "streams_video c \<noteq> []" and "decode c \<noteq> []"
    and "get_file_frames_duration_av file None False = Inr (n, d)"
  shows "n = int (length (decode c)) - 1"
proof -
  obtain stream other where s: "streams_video c = stream # other"
    using assms(2) by (cases "streams_video c") auto
  have l: "decode_loop None (decode c) 0 (0, None)
             = (length (decode c) - 1, Some (last (decode c)))"
    using assms(3) by (simp add: decode_loop_unbounded)
  have "int (length (decode c) - Suc 0) = int (length (decode c)) - 1"
    using assms(3) by (cases "decode c") auto
  then show ?thesis
    using assms(1,4) s l
    by (auto simp: get_file_frames_duration_av_def Let_def split: if_splits option.splits)
qed

text \<open>
  Claim C2. Eleven decoded frames, 40 ms apart, no duration in the container: the code
  returns \<open>frame_count = 10\<close> and \<open>duration = round(10 * (400 / 9)) = 444\<close>, where the
  claim has \<open>frame_count = 11\<close> and a duration of about 400 ms.
\<close>

theorem av_eleven_frames_counts_ten:
  "length (decode (projr (container (webm_frames 11)))) = 11
   \<and> pts (last (decode (projr (container (webm_frames 11))))) = Some 400
   \<and> get_file_frames_duration_av (webm_frames 11) None False = Inr (10, 444)
   \<and> get_file_fps_frames_duration (webm_frames 11) None = Inr (2500 / 111, 10, 444)"
proof -
  have 1: "length (decode (projr (container (webm_frames 11)))) = 11" by code_simp
  have 2: "pts (last (decode (projr (container (webm_frames 11))))) = Some 400" by code_simp
  have 3: "get_file_frames_duration_av (webm_frames 11) None False = Inr (10, 444)"
    by code_simp
  have 4: "get_file_fps_frames_duration (webm_frames 11) None = Inr (2500 / 111, 10, 444)"
    by code_simp
  from 1 2 3 4 show ?thesis by (intro conjI)
qed

text \<open>
  Claim C3, amended. On the decode-fallback path (an extension that is none of
  \<open>.tgs\<close>, \<open>.webp\<close>, \<open>.gif\<close>, \<open>.apng\<close>, \<open>.png\<close>), a container that opens and has a
  video stream but yields no frame makes the facade return \<open>fps = 0\<close>, \<open>frames = 0\<close>,
  \<open>duration = 0\<close>: the frame count defaults to 0, not to 1, and no component is negative.
\<close>

theorem av_no_frames_default:
  assumes "resolve_ext file ext
             \<notin> {Some ''.tgs'', Some ''.webp'', Some ''.gif'', Some ''.apng'', Some ''.png''}"
    and "container file = Inr c"
    and "streams_video c \<noteq> []"
    and "decode c = []"
  shows "get_file_fps_frames_duration file ext = Inr (0, 0, 0)"
proof -
  obtain stream other where s: "streams_video c = stream # other"
    using assms(3) by (cases "streams_video c") auto
  have "get_file_frames_duration_av file None False = Inr (0, 0)"
    using assms(2,4) s by (simp add: get_file_frames_duration_av_def Let_def)
  then show ?thesis
    using assms(1) by (simp add: get_file_fps_frames_duration_def Let_def)
qed

theorem av_no_frames_default_witness:
  "resolve_ext (webm_frames 0) None
     \<notin> {Some ''.tgs'', Some ''.webp'', Some ''.gif'', Some ''.apng'', Some ''.png''}
   \<and> container (webm_frames 0) = Inr (projr (container (webm_frames 0)))
   \<and> streams_video (projr (container (webm_frames 0))) \<noteq> []
   \<and> decode (projr (container (webm_frames 0))) = []
   \<and> get_file_fps_frames_duration (webm_frames 0) None = Inr (0, 0, 0)"
proof -
  have 1: "resolve_ext (webm_frames 0) None
     \<notin> {Some ''.tgs'', Some ''.webp'', Some ''.gif'', Some ''.apng'', Some ''.png''}"
    by (simp add: resolve_ext_def webm_frames_def)
  have 2: "container (webm_frames 0) = Inr (projr (container (webm_frames 0)))"
    by (simp add: webm_frames_def)
  have 3: "streams_video (projr (container (webm_frames 0))) \<noteq> []"
    by (simp add: webm_frames_def)
  have 4: "decode (projr (container (webm_frames 0))) = []"
    by (simp add: webm_frames_def)
  from av_no_frames_default [OF 1 2 3 4] 1 2 3 4 show ?thesis by (intro conjI)
qed

text \<open>A video that yields no frame: the facade returns a frame count of 0, not of 1.\<close>

theorem av_no_frames_counterexample:
  "decode (projr (container (webm_frames 0))) = []
   \<and> get_file_fps_frames_duration (webm_frames 0) None = Inr (0, 0, 0)
   \<and> get_file_fps_frames_duration (webm_frames 0) None \<noteq> Inr (0, 1, 0)"
proof -
  have 1: "decode (projr (container (webm_frames 0))) = []" by (simp add: webm_frames_def)
  have 2: "get_file_fps_frames_duration (webm_frames 0) None = Inr (0, 0, 0)" by code_simp
  show ?thesis unfolding 2 using 1 by simp
qed

subsection \<open>The facade\<close>

text \<open>
  Claim C8, amended. The object \<open>CodecInfo\<close> builds has \<open>is_animated = (fps > 1)\<close>, for
  every file and every strategy. The static predicate \<open>is_anim\<close> is a different
  criterion: it holds when the frame count \<open>get_file_frames\<close> reports with
  \<open>check_anim=True\<close> exceeds 1.
\<close>

theorem is_animated_iff_fps_gt_1:
  "(CodecInfo_init file ext = Inr info \<longrightarrow> is_animated info = (1 < fps info))
   \<and> is_anim file =
       (case get_file_frames file None True of
          Inl err \<Rightarrow> Inl err
        | Inr n \<Rightarrow> Inr (1 < n))"
proof (intro conjI impI)
  assume "CodecInfo_init file ext = Inr info"
  then show "is_animated info = (1 < fps info)"
    by (auto simp: CodecInfo_init_def split: sum.splits)
next
  show "is_anim file =
       (case get_file_frames file None True of
          Inl err \<Rightarrow> Inl err
        | Inr n \<Rightarrow> Inr (1 < n))"
    by (simp add: is_anim_def)
qed

theorem is_animated_iff_fps_gt_1_witness:
  "CodecInfo_init gif_two_slow_frames None =
     Inr \<lparr>file_ext = Some ''.gif'', fps = 1, frames = 2, duration = 2000,
          codec = ''gif'', res = (64, 64), is_animated = False\<rparr>
   \<and> is_animated \<lparr>file_ext = Some ''.gif'', fps = 1, frames = 2, duration = 2000,
                   codec = ''gif'', res = (64, 64), is_animated = False\<rparr>
       = (1 < fps \<lparr>file_ext = Some ''.gif'', fps = 1, frames = 2, duration = 2000,
                     codec = ''gif'', res = (64, 64), is_animated = False\<rparr>)"
proof -
  have 1: "CodecInfo_init gif_two_slow_frames None =
     Inr \<lparr>file_ext = Some ''.gif'', fps = 1, frames = 2, duration = 2000,
          codec = ''gif'', res = (64, 64), is_animated = False\<rparr>"
    by code_simp
  from is_animated_iff_fps_gt_1 [of gif_two_slow_frames None] 1
  show ?thesis by blast
qed

text \<open>
  A GIF of two frames, one second each: \<open>fps = 1\<close>, so the object is not animated,
  while \<open>is_anim\<close> holds for the same file.
\<close>

theorem is_anim_disagrees_counterexample:
  "CodecInfo_init gif_two_slow_frames None =
     Inr \<lparr>file_ext = Some ''.gif'', fps = 1, frames = 2, duration = 2000,
          codec = ''gif'', res = (64, 64), is_animated = False\<rparr>
   \<and> is_anim gif_two_slow_frames = Inr True"
proof -
  have 1: "CodecInfo_init gif_two_slow_frames None =
     Inr \<lparr>file_ext = Some ''.gif'', fps = 1, frames = 2, duration = 2000,
          codec = ''gif'', res = (64, 64), is_animated = False\<rparr>"
    by code_simp
  have 2: "is_anim gif_two_slow_frames = Inr True" by code_simp
  from 1 2 show ?thesis by (intro conjI)
qed

subsection \<open>\<open>likely_int\<close> and \<open>durations_gcd\<close>\<close>

lemma digits_small: "n < 10 \<Longrightarrow> digits n = [n]"
  by (simp add: digits.simps)

lemma likely_int_PInt: "likely_int (PInt i) = Inr True"
  by simp

text \<open>
  Claim C9. \<open>1e16\<close> is a float and an exact integer; Python prints it as \<open>1e+16\<close>,
  which has no point, and \<open>likely_int\<close> raises \<open>IndexError\<close> instead of returning
  \<open>True\<close>. \<open>1.5e-07\<close> is printed in exponent form as well: its first five decimals
  are \<open>00000\<close>, and \<open>likely_int\<close> returns \<open>False\<close>. On \<open>12.345\<close> the result is
  \<open>False\<close>, as claimed.
\<close>

theorem likely_int_exponent_form:
  "num_val (PFloat 1 16) = 10000000000000000
   \<and> str (PFloat 1 16) = ''1e+16''
   \<and> likely_int (PFloat 1 16) = Inl IndexError
   \<and> \<lfloor>num_val (PFloat 15 (- 8)) * 100000\<rfloor> = 0
   \<and> str (PFloat 15 (- 8)) = ''1.5e-07''
   \<and> likely_int (PFloat 15 (- 8)) = Inr False
   \<and> str (PFloat 12345 (- 3)) = ''12.345''
   \<and> likely_int (PFloat 12345 (- 3)) = Inr False"
proof -
  have d1: "digits 1 = [1]" and d7: "digits 7 = [7]" by (simp_all add: digits_small)
  have d15: "digits 15 = [1, 5]" by (simp add: digits.simps)
  have d12345: "digits 12345 = [1, 2, 3, 4, 5]" by (simp add: digits.simps)
  have 1: "num_val (PFloat 1 16) = 10000000000000000" by (simp add: pow10_def)
  have 2: "str (PFloat 1 16) = ''1e+16''"
    by (simp add: float_str_def d1 strip_zeros_def digit_char_def exp_str_def digits.simps)
  have 3: "likely_int (PFloat 1 16) = Inl IndexError"
    using 2 by (simp add: get_five_dec_place_def)
  have 4: "\<lfloor>num_val (PFloat 15 (- 8)) * 100000\<rfloor> = 0"
    by (simp add: pow10_def floor_eq_iff)
  have 5: "str (PFloat 15 (- 8)) = ''1.5e-07''"
    by (simp add: float_str_def d15 d7 strip_zeros_def digit_char_def exp_str_def)
  have 6: "likely_int (PFloat 15 (- 8)) = Inr False"
    using 5 by (simp add: get_five_dec_place_def ljust_def)
  have 7: "str (PFloat 12345 (- 3)) = ''12.345''"
    by (simp add: float_str_def d12345 strip_zeros_def digit_char_def)
  have 8: "likely_int (PFloat 12345 (- 3)) = Inr False"
    using 7 by (simp add: get_five_dec_place_def ljust_def)
  from 1 2 3 4 5 6 7 8 show ?thesis by (intro conjI)
qed

text \<open>
  Claim C5. The samples \<open>33.5\<close> and \<open>67.0\<close>: \<open>33.5\<close> does not pass \<open>likely_int\<close>, so
  not every sample is integral, and probing the denominators would give the tick
  \<open>gcd(201, 402) / 6 = 67/2\<close>. The test \<open>all(i for i in durations if likely_int(i))\<close>
  skips the sample that fails instead of failing on it, and the code returns
  \<open>gcd(round(33.5), round(67.0)) / 1 = gcd(34, 67) = 1\<close>.
\<close>

theorem durations_gcd_skips_probing:
  "likely_int (PFloat 335 (- 1)) = Inr False
   \<and> all_of_likely [PFloat 335 (- 1), PFloat 67 0] = Inr True
   \<and> durations_gcd [PFloat 335 (- 1), PFloat 67 0] = Inr (TFraction 1)
   \<and> probe_denominators [3, 6, 7, 9, 11, 13] [PFloat 335 (- 1), PFloat 67 0]
       = Inr (TFraction (67 / 2))"
proof -
  have 1: "likely_int (PFloat 335 (- 1)) = Inr False" by code_simp
  have 2: "all_of_likely [PFloat 335 (- 1), PFloat 67 0] = Inr True" by code_simp
  have 3: "durations_gcd [PFloat 335 (- 1), PFloat 67 0] = Inr (TFraction 1)" by code_simp
  have 4: "probe_denominators [3, 6, 7, 9, 11, 13] [PFloat 335 (- 1), PFloat 67 0]
       = Inr (TFraction (67 / 2))" by code_simp
  from 1 2 3 4 show ?thesis by (intro conjI)
qed

end
